theory Spec2Isabelle
  imports Main "HOL-Library.Sublist"
begin

section \<open>Python strings\<close>

text \<open>
  The crawler of \<^verbatim>\<open>src/motorola_crawler.py\<close> works on Python \<^verbatim>\<open>str\<close> values. A
  \<^typ>\<open>string\<close> of the model is a list of characters, one \<^typ>\<open>char\<close> per Python
  character, so \<^const>\<open>length\<close> is \<^verbatim>\<open>len\<close> and \<^const>\<open>take\<close> is a slice from the
  front. The type \<^typ>\<open>char\<close> has 256 values: the model covers the texts whose code
  points lie below 256, and the character classes below are Python's on that range.
\<close>

text \<open>\<^verbatim>\<open>sub in s\<close>: \<^verbatim>\<open>sub\<close> occurs in \<^verbatim>\<open>s\<close> as a contiguous piece.\<close>

fun str_in :: "string \<Rightarrow> string \<Rightarrow> bool" where
  "str_in sub [] = (sub = [])"
| "str_in sub (c # cs) = (prefix sub (c # cs) \<or> str_in sub cs)"

text \<open>\<^verbatim>\<open>s.startswith(p)\<close>.\<close>

definition startswith :: "string \<Rightarrow> string \<Rightarrow> bool" where
  "startswith s p = prefix p s"

text \<open>\<^verbatim>\<open>str.lower\<close>: the upper-case letters below code point 256 and their images.\<close>

definition upper_chars :: string where
  "upper_chars = ''ABCDEFGHIJKLMNOPQRSTUVWXYZ'' @
     [CHR 0xC0, CHR 0xC1, CHR 0xC2, CHR 0xC3, CHR 0xC4, CHR 0xC5, CHR 0xC6, CHR 0xC7,
      CHR 0xC8, CHR 0xC9, CHR 0xCA, CHR 0xCB, CHR 0xCC, CHR 0xCD, CHR 0xCE, CHR 0xCF,
      CHR 0xD0, CHR 0xD1, CHR 0xD2, CHR 0xD3, CHR 0xD4, CHR 0xD5, CHR 0xD6,
      CHR 0xD8, CHR 0xD9, CHR 0xDA, CHR 0xDB, CHR 0xDC, CHR 0xDD, CHR 0xDE]"

definition lower_chars :: string where
  "lower_chars = ''abcdefghijklmnopqrstuvwxyz'' @
     [CHR 0xE0, CHR 0xE1, CHR 0xE2, CHR 0xE3, CHR 0xE4, CHR 0xE5, CHR 0xE6, CHR 0xE7,
      CHR 0xE8, CHR 0xE9, CHR 0xEA, CHR 0xEB, CHR 0xEC, CHR 0xED, CHR 0xEE, CHR 0xEF,
      CHR 0xF0, CHR 0xF1, CHR 0xF2, CHR 0xF3, CHR 0xF4, CHR 0xF5, CHR 0xF6,
      CHR 0xF8, CHR 0xF9, CHR 0xFA, CHR 0xFB, CHR 0xFC, CHR 0xFD, CHR 0xFE]"

definition lower_char :: "char \<Rightarrow> char" where
  "lower_char c = (case map_of (zip upper_chars lower_chars) c of Some l \<Rightarrow> l | None \<Rightarrow> c)"

definition lower :: "string \<Rightarrow> string" where
  "lower s = map lower_char s"

text \<open>
  The characters \<^verbatim>\<open>str.strip()\<close> and \<^verbatim>\<open>str.split()\<close> treat as whitespace: tab to
  carriage return, the four separators \<^verbatim>\<open>\x1c\<close> to \<^verbatim>\<open>\x1f\<close>, the space, \<^verbatim>\<open>\x85\<close>
  and \<^verbatim>\<open>\xa0\<close>.
\<close>

definition is_space :: "char \<Rightarrow> bool" where
  "is_space c \<longleftrightarrow> c \<in> set [CHR 0x09, CHR 0x0A, CHR 0x0B, CHR 0x0C, CHR 0x0D,
     CHR 0x1C, CHR 0x1D, CHR 0x1E, CHR 0x1F, CHR 0x20, CHR 0x85, CHR 0xA0]"

text \<open>\<^verbatim>\<open>s.strip()\<close>.\<close>

definition strip :: "string \<Rightarrow> string" where
  "strip s = rev (dropWhile is_space (rev (dropWhile is_space s)))"

text \<open>
  \<^verbatim>\<open>s.split()\<close>: the maximal runs of non-whitespace characters, in order. The first
  argument is the word being read.
\<close>

fun split_from :: "string \<Rightarrow> string \<Rightarrow> string list" where
  "split_from cur [] = (if cur = [] then [] else [cur])"
| "split_from cur (c # cs) =
     (if is_space c then (if cur = [] then split_from [] cs else cur # split_from [] cs)
      else split_from (cur @ [c]) cs)"

definition split_ws :: "string \<Rightarrow> string list" where
  "split_ws s = split_from [] s"

text \<open>\<^verbatim>\<open>sep.join(parts)\<close>.\<close>

fun join :: "string \<Rightarrow> string list \<Rightarrow> string" where
  "join sep [] = []"
| "join sep [x] = x"
| "join sep (x # y # rest) = x @ sep @ join sep (y # rest)"

text \<open>\<^verbatim>\<open>s.split(c)\<close> for a separator of one character: at least one piece.\<close>

fun split_char :: "char \<Rightarrow> string \<Rightarrow> string list" where
  "split_char sep [] = [[]]"
| "split_char sep (c # cs) =
     (if c = sep then [] # split_char sep cs
      else (case split_char sep cs of
              [] \<Rightarrow> [[c]]
            | p # ps \<Rightarrow> (c # p) # ps))"

text \<open>
  \<^verbatim>\<open>re.search(r'/bundle/(\d+)/', toc_url)\<close> and its \<^verbatim>\<open>group(1)\<close>: the leftmost place
  where \<^verbatim>\<open>/bundle/\<close> is followed by at least one digit and then a slash. The digits
  are taken greedily; giving one back never helps, since the character after a
  shorter run is a digit and not the slash.
\<close>

definition is_digit :: "char \<Rightarrow> bool" where
  "is_digit c \<longleftrightarrow> c \<in> set ''0123456789''"

definition bundle_match_here :: "string \<Rightarrow> string option" where
  "bundle_match_here s =
     (if prefix ''/bundle/'' s then
        (let rest = drop 8 s; ds = takeWhile is_digit rest in
         (case dropWhile is_digit rest of
            [] \<Rightarrow> None
          | c # _ \<Rightarrow> if ds \<noteq> [] \<and> c = CHR ''/'' then Some ds else None))
      else None)"

fun bundle_match :: "string \<Rightarrow> string option" where
  "bundle_match [] = None"
| "bundle_match (c # cs) =
     (case bundle_match_here (c # cs) of
        Some g \<Rightarrow> Some g
      | None \<Rightarrow> bundle_match cs)"

section \<open>The parsed document\<close>

text \<open>
  \<^verbatim>\<open>BeautifulSoup(html, 'html.parser')\<close> turns the fetched HTML into a tree; the model
  starts from that tree. A node is a string of the page, an element with its name, its
  attributes and its children, or one of the strings that \<^verbatim>\<open>get_text\<close> leaves out
  and a search by text still finds (a comment, a doctype, a declaration), all of them
  under the name of the comment. The soup itself is the list of the top-level nodes.
  Equality of nodes is structural, as \<^verbatim>\<open>==\<close> on two \<^verbatim>\<open>Tag\<close>s is.
\<close>

datatype node =
    Text string
  | Comment string
  | Tag (name: string) (attrs: "(string \<times> string) list") (children: "node list")

text \<open>All elements of a forest in document order: what \<^verbatim>\<open>find_all\<close> searches.\<close>

fun tags_of :: "node list \<Rightarrow> node list" where
  "tags_of [] = []"
| "tags_of (Text s # rest) = tags_of rest"
| "tags_of (Comment s # rest) = tags_of rest"
| "tags_of (Tag n a cs # rest) = Tag n a cs # tags_of cs @ tags_of rest"

text \<open>The strings of a forest that \<^verbatim>\<open>get_text\<close> reads, in document order.\<close>

fun strings_of :: "node list \<Rightarrow> string list" where
  "strings_of [] = []"
| "strings_of (Text s # rest) = s # strings_of rest"
| "strings_of (Comment s # rest) = strings_of rest"
| "strings_of (Tag n a cs # rest) = strings_of cs @ strings_of rest"

text \<open>\<^verbatim>\<open>tag.get_text()\<close>: the strings below the element, concatenated.\<close>

definition get_text :: "node \<Rightarrow> string" where
  "get_text t = concat (strings_of (children t))"

text \<open>
  \<^verbatim>\<open>get_text(separator=sep, strip=True)\<close> on a forest: every string stripped, the empty
  ones dropped, the rest joined with the separator.
\<close>

definition text_stripped :: "string \<Rightarrow> node list \<Rightarrow> string" where
  "text_stripped sep forest =
     join sep (filter (\<lambda>s. s \<noteq> []) (map strip (strings_of forest)))"

text \<open>\<^verbatim>\<open>tag.get_text(strip=True)\<close>: the separator is the empty string.\<close>

definition get_text_strip :: "node \<Rightarrow> string" where
  "get_text_strip t = text_stripped [] (children t)"

text \<open>\<^verbatim>\<open>tag.find_all('a', href=True)\<close>: the links below the element, itself excluded.\<close>

definition is_a_href :: "node \<Rightarrow> bool" where
  "is_a_href t \<longleftrightarrow> name t = ''a'' \<and> map_of (attrs t) ''href'' \<noteq> None"

definition find_all_a_href :: "node \<Rightarrow> node list" where
  "find_all_a_href t = filter is_a_href (tags_of (children t))"

text \<open>\<^verbatim>\<open>link.get('href', '')\<close>.\<close>

definition get_href :: "node \<Rightarrow> string" where
  "get_href t = (case map_of (attrs t) ''href'' of Some h \<Rightarrow> h | None \<Rightarrow> [])"

text \<open>Only elements are walked: the strings among some siblings are skipped.\<close>

fun is_tag :: "node \<Rightarrow> bool" where
  "is_tag (Text s) = False"
| "is_tag (Comment s) = False"
| "is_tag (Tag n a cs) = True"

section \<open>The world outside: fetches, pauses and the clock\<close>

text \<open>
  Every fetch is one \<^verbatim>\<open>crawler.arun(url, ...)\<close> in a browser session of its own. The
  result object is a record of the fields the crawler reads; \<^verbatim>\<open>result.html\<close> is held
  parsed. \<^verbatim>\<open>error_message\<close> and the values of \<^verbatim>\<open>metadata\<close> may be \<^verbatim>\<open>None\<close>.
\<close>

datatype pyval = PNone | PBool bool | PInt int | PStr string

record crawl_result =
  success :: bool
  error_message :: "string option"
  html :: "node list"
  raw_markdown :: string
  metadata :: "(string \<times> pyval) list"

text \<open>
  What a run does to the outside is its trace: the URLs it fetches and the pauses it
  makes (\<^verbatim>\<open>asyncio.sleep\<close>, in milliseconds), in order. The environment answers the
  \<open>k\<close>-th fetch of a run, whatever its URL, and gives the clock reading
  (\<^verbatim>\<open>datetime.now().isoformat()\<close>) after a number of events.
\<close>

datatype event = Fetch string | Sleep nat

record env =
  arun :: "nat \<Rightarrow> string \<Rightarrow> crawl_result"
  now_isoformat :: "nat \<Rightarrow> string"

fun is_fetch :: "event \<Rightarrow> bool" where
  "is_fetch (Fetch u) = True"
| "is_fetch (Sleep n) = False"

definition fetch_count :: "event list \<Rightarrow> nat" where
  "fetch_count tr = length (filter is_fetch tr)"

definition do_arun :: "env \<Rightarrow> string \<Rightarrow> event list \<Rightarrow> crawl_result \<times> event list" where
  "do_arun e u tr = (arun e (fetch_count tr) u, tr @ [Fetch u])"

definition sleep :: "nat \<Rightarrow> event list \<Rightarrow> event list" where
  "sleep ms tr = tr @ [Sleep ms]"

text \<open>The exceptions the crawler's own statements can raise.\<close>

datatype exn = UnboundLocalError | TypeError | AttributeError

section \<open>Navigation links: \<^verbatim>\<open>extract_navigation_links\<close>\<close>

text \<open>A navigation link is the dict \<^verbatim>\<open>{'url': url, 'nav_text': text}\<close>: the pair of both.\<close>

type_synonym nav_link = "string \<times> string"

definition is_whats_new :: "node \<Rightarrow> bool" where
  "is_whats_new heading \<longleftrightarrow>
     str_in ''what's new'' (lower (get_text heading)) \<or>
     str_in ''whats new'' (lower (get_text heading))"

text \<open>
  \<^verbatim>\<open>heading.find_next()\<close> is the first element after the heading's opening in document
  order, and \<^verbatim>\<open>find_next_sibling()\<close> then steps through the later elements among its
  siblings. With the levels after the heading listed from the inside out (its children,
  its later siblings, its parent's later siblings, and so on), the elements walked are
  the elements of the first level that has one.
\<close>

fun first_tags :: "node list list \<Rightarrow> node list" where
  "first_tags [] = []"
| "first_tags (level # levels) =
     (if filter is_tag level = [] then first_tags levels else filter is_tag level)"

text \<open>
  The loop over \<^verbatim>\<open>soup.find_all(['h1', 'h2', 'h3', 'h4'])\<close> that stops at the first
  heading with the phrase: the heading, and the elements the walk after it visits. The
  second argument lists the later siblings of the ancestors, innermost first.
\<close>

fun find_whats_new :: "node list \<Rightarrow> node list list \<Rightarrow> (node \<times> node list) option" where
  "find_whats_new [] ctx = None"
| "find_whats_new (Text s # rest) ctx = find_whats_new rest ctx"
| "find_whats_new (Comment s # rest) ctx = find_whats_new rest ctx"
| "find_whats_new (Tag n a cs # rest) ctx =
     (if n \<in> set [''h1'', ''h2'', ''h3'', ''h4''] \<and> is_whats_new (Tag n a cs)
      then Some (Tag n a cs, first_tags (cs # rest # ctx))
      else (case find_whats_new cs (rest # ctx) of
              Some r \<Rightarrow> Some r
            | None \<Rightarrow> find_whats_new rest ctx))"

definition qualifies :: "string \<Rightarrow> string \<Rightarrow> bool" where
  "qualifies bundle_id u \<longleftrightarrow>
     str_in (''/bundle/'' @ bundle_id @ ''/page/'') u \<and> \<not> str_in ''/auth/login'' u"

definition absolute_url :: "string \<Rightarrow> string" where
  "absolute_url u =
     (if startswith u ''http'' then u else ''https://docs.motorolasolutions.com'' @ u)"

text \<open>
  The inner loop \<^verbatim>\<open>for link in links\<close>, on the pair of \<^verbatim>\<open>seen_urls\<close> and
  \<^verbatim>\<open>navigation_links\<close>.
\<close>

fun add_links :: "string \<Rightarrow> node list \<Rightarrow> string set \<times> nav_link list
    \<Rightarrow> string set \<times> nav_link list" where
  "add_links bundle_id [] st = st"
| "add_links bundle_id (link # links) (seen_urls, navigation_links) =
     (let u = get_href link; text = get_text_strip link in
      if qualifies bundle_id u then
        (let u = absolute_url u in
         if u \<notin> seen_urls \<and> text \<noteq> []
         then add_links bundle_id links (insert u seen_urls, navigation_links @ [(u, text)])
         else add_links bundle_id links (seen_urls, navigation_links))
      else add_links bundle_id links (seen_urls, navigation_links))"

text \<open>
  The loop \<^verbatim>\<open>while current\<close> over the elements walked: it stops at a heading of level
  1 to 3 that differs from the section's heading.
\<close>

fun walk_section :: "string \<Rightarrow> node \<Rightarrow> node list \<Rightarrow> string set \<times> nav_link list
    \<Rightarrow> string set \<times> nav_link list" where
  "walk_section bundle_id whats_new_section [] st = st"
| "walk_section bundle_id whats_new_section (current # rest) st =
     (if name current \<in> set [''h1'', ''h2'', ''h3''] \<and> current \<noteq> whats_new_section then st
      else walk_section bundle_id whats_new_section rest
             (add_links bundle_id (find_all_a_href current) st))"

text \<open>
  The fallback loop over \<^verbatim>\<open>soup.find_all('li')\<close>, with \<^verbatim>\<open>li.find('a', href=True)\<close> the
  first link below the item. \<^verbatim>\<open>seen_urls\<close> is assigned only in the branch of a found
  heading: it is \<open>None\<close> while unbound, and reading it then raises.
\<close>

fun fallback_links :: "string \<Rightarrow> node list \<Rightarrow> string set option \<Rightarrow> nav_link list
    \<Rightarrow> exn + nav_link list" where
  "fallback_links bundle_id [] seen_urls navigation_links = Inr navigation_links"
| "fallback_links bundle_id (li # lis) seen_urls navigation_links =
     (case find_all_a_href li of
        [] \<Rightarrow> fallback_links bundle_id lis seen_urls navigation_links
      | link # _ \<Rightarrow>
          (let u = get_href link; text = get_text_strip link in
           if qualifies bundle_id u then
             (let u = absolute_url u in
              (case seen_urls of
                 None \<Rightarrow> Inl UnboundLocalError
               | Some seen \<Rightarrow>
                   if u \<notin> seen \<and> text \<noteq> []
                   then fallback_links bundle_id lis (Some (insert u seen))
                          (navigation_links @ [(u, text)])
                   else fallback_links bundle_id lis seen_urls navigation_links))
           else fallback_links bundle_id lis seen_urls navigation_links))"

definition find_all_li :: "node list \<Rightarrow> node list" where
  "find_all_li soup = filter (\<lambda>t. name t = ''li'') (tags_of soup)"

text \<open>The part of the function after the page is fetched and the bundle id is known.\<close>

definition links_of_soup :: "string \<Rightarrow> node list \<Rightarrow> exn + nav_link list" where
  "links_of_soup bundle_id soup =
     (let (seen_urls, navigation_links) =
            (case find_whats_new soup [] of
               None \<Rightarrow> (None, [])
             | Some (whats_new_section, walked) \<Rightarrow>
                 (let (seen, links) = walk_section bundle_id whats_new_section walked ({}, [])
                  in (Some seen, links)))
      in if navigation_links = []
         then fallback_links bundle_id (find_all_li soup) seen_urls navigation_links
         else Inr navigation_links)"

definition extract_navigation_links :: "env \<Rightarrow> string \<Rightarrow> event list
    \<Rightarrow> (exn + nav_link list) \<times> event list" where
  "extract_navigation_links e toc_url tr =
     (let (result, tr1) = do_arun e toc_url tr in
      if \<not> success result then (Inr [], tr1)
      else (case bundle_match toc_url of
              None \<Rightarrow> (Inr [], tr1)
            | Some bundle_id \<Rightarrow> (links_of_soup bundle_id (html result), tr1)))"

section \<open>One page: \<^verbatim>\<open>crawl_single_page\<close>\<close>

text \<open>The dicts the crawler returns, as lists of keys and values in the order written.\<close>

type_synonym pydict = "(string \<times> pyval) list"

definition dict_get :: "pydict \<Rightarrow> string \<Rightarrow> pyval option" where
  "dict_get d k = map_of d k"

text \<open>Python's truth value of what \<^verbatim>\<open>d.get(k)\<close> gives (\<open>None\<close> for a missing key).\<close>

fun truthy :: "pyval option \<Rightarrow> bool" where
  "truthy None = False"
| "truthy (Some PNone) = False"
| "truthy (Some (PBool b)) = b"
| "truthy (Some (PInt i)) = (i \<noteq> 0)"
| "truthy (Some (PStr s)) = (s \<noteq> [])"

definition error_dict :: "string \<Rightarrow> string \<Rightarrow> pydict" where
  "error_dict u msg =
     [(''error'', PBool True), (''url'', PStr u), (''error_message'', PStr msg)]"

text \<open>
  The retry loop \<^verbatim>\<open>for attempt in range(max_retries + 1)\<close>. It ends by the
  \<^verbatim>\<open>return\<close> of the error dict inside it, or it is left (by \<^verbatim>\<open>break\<close> or at the end
  of the range) with the values of \<^verbatim>\<open>result\<close> and \<^verbatim>\<open>last_error\<close>.
\<close>

datatype loop_exit = Return pydict | Left "crawl_result option" "string option"

function attempt_loop :: "env \<Rightarrow> string \<Rightarrow> int \<Rightarrow> int \<Rightarrow> crawl_result option
    \<Rightarrow> string option \<Rightarrow> event list \<Rightarrow> loop_exit \<times> event list" where
  "attempt_loop e u max_retries attempt result last_error tr =
     (if attempt < max_retries + 1 then
        (let (result, tr1) = do_arun e u tr in
         if success result then
           (let content = raw_markdown result in
            if str_in ''Request unsuccessful'' content \<or>
               str_in ''Incapsula incident ID'' content
            then
              (if attempt < max_retries
               then attempt_loop e u max_retries (attempt + 1) (Some result)
                      (Some ''Security block (WAF/CDN)'') (sleep 3000 tr1)
               else (Return (error_dict u ''Security block (WAF/CDN)''), tr1))
            else (Left (Some result) last_error, tr1))
         else
           (if attempt < max_retries
            then attempt_loop e u max_retries (attempt + 1) (Some result)
                   (error_message result) (sleep 2000 tr1)
            else attempt_loop e u max_retries (attempt + 1) (Some result)
                   (error_message result) tr1))
      else (Left result last_error, tr))"
  by pat_completeness auto
termination
  by (relation "measure (\<lambda>(e, u, max_retries, attempt, result, last_error, tr).
        nat (max_retries + 1 - attempt))") auto

declare attempt_loop.simps [simp del]

text \<open>\<^verbatim>\<open>last_error or "Unknown error"\<close>.\<close>

definition or_unknown :: "string option \<Rightarrow> string" where
  "or_unknown last_error =
     (case last_error of
        None \<Rightarrow> ''Unknown error''
      | Some m \<Rightarrow> if m = [] then ''Unknown error'' else m)"

text \<open>
  \<^verbatim>\<open>element.decompose()\<close> for every \<^verbatim>\<open>script\<close>, \<^verbatim>\<open>style\<close>, \<^verbatim>\<open>nav\<close>, \<^verbatim>\<open>header\<close>
  and \<^verbatim>\<open>footer\<close> element: the elements leave the tree with all below them.
\<close>

fun decompose_named :: "string list \<Rightarrow> node list \<Rightarrow> node list" where
  "decompose_named names [] = []"
| "decompose_named names (Text s # rest) = Text s # decompose_named names rest"
| "decompose_named names (Comment s # rest) = Comment s # decompose_named names rest"
| "decompose_named names (Tag n a cs # rest) =
     (if n \<in> set names then decompose_named names rest
      else Tag n a (decompose_named names cs) # decompose_named names rest)"

text \<open>
  The cookie and privacy notices. \<^verbatim>\<open>soup.find_all(text=...)\<close> first lists every
  string of the soup, the comments among them, that is not empty and mentions one of the
  two phrases.
\<close>

fun searched_strings :: "node list \<Rightarrow> string list" where
  "searched_strings [] = []"
| "searched_strings (Text s # rest) = s # searched_strings rest"
| "searched_strings (Comment s # rest) = s # searched_strings rest"
| "searched_strings (Tag n a cs # rest) = searched_strings cs @ searched_strings rest"

definition mentions_notice :: "string \<Rightarrow> bool" where
  "mentions_notice s \<longleftrightarrow>
     s \<noteq> [] \<and> (str_in ''cookie'' (lower s) \<or> str_in ''privacy statement'' (lower s))"

text \<open>
  The loop then takes the listed strings in document order. It reads
  \<^verbatim>\<open>element.parent\<close>, and for a string longer than 100 characters it calls
  \<^verbatim>\<open>element.parent.decompose()\<close>: the parent leaves the tree, and every node below it
  loses its attributes. Reading \<^verbatim>\<open>element.parent\<close> of a listed string that an earlier
  step has so destroyed raises \<^verbatim>\<open>AttributeError\<close>, whatever the length of the string.
  The strings destroyed with a parent are those after the long string among the
  parent's children and below them; the earlier ones have had their turn.

  The scan of the children of one parent says how it ended: the loop raised, the parent
  was decomposed, or the parent stays with these children.
\<close>

datatype scan = Raised | Decomposed | Kept "node list"

definition keep :: "node \<Rightarrow> scan \<Rightarrow> scan" where
  "keep n later =
     (case later of
        Raised \<Rightarrow> Raised
      | Decomposed \<Rightarrow> Decomposed
      | Kept ns \<Rightarrow> Kept (n # ns))"

fun scan_notices :: "node list \<Rightarrow> scan" where
  "scan_notices [] = Kept []"
| "scan_notices (Text s # rest) =
     (if mentions_notice s \<and> length s > 100
      then (if list_ex mentions_notice (searched_strings rest) then Raised else Decomposed)
      else keep (Text s) (scan_notices rest))"
| "scan_notices (Comment s # rest) =
     (if mentions_notice s \<and> length s > 100
      then (if list_ex mentions_notice (searched_strings rest) then Raised else Decomposed)
      else keep (Comment s) (scan_notices rest))"
| "scan_notices (Tag n a cs # rest) =
     (case scan_notices cs of
        Raised \<Rightarrow> Raised
      | Decomposed \<Rightarrow> scan_notices rest
      | Kept cs' \<Rightarrow> keep (Tag n a cs') (scan_notices rest))"

text \<open>
  The two cleaning loops of \<^verbatim>\<open>crawl_single_page\<close>. The parent of a string at the top
  is the soup itself: decomposed, it is empty.
\<close>

definition clean_soup :: "node list \<Rightarrow> exn + node list" where
  "clean_soup soup =
     (case scan_notices
             (decompose_named [''script'', ''style'', ''nav'', ''header'', ''footer''] soup) of
        Raised \<Rightarrow> Inl AttributeError
      | Decomposed \<Rightarrow> Inr []
      | Kept cleaned \<Rightarrow> Inr cleaned)"

text \<open>
  The title: the navigation text when it is a non-empty string, else the title of the
  page's metadata, \<^verbatim>\<open>'Unknown'\<close> when the key is missing, cut before the first
  \<^verbatim>\<open>' \<emdash> '\<close>. The test \<^verbatim>\<open>' \<emdash> ' in title\<close> raises on a value that is no string.
  The separator holds U+2014, a character beyond the range of \<^typ>\<open>char\<close>. The title of
  the metadata, and it alone, is therefore held in its UTF-8 encoding, where the
  separator is the five bytes below; a search and a cut on the encoding are the search
  and the cut on the characters.
\<close>

definition title_separator :: string where
  "title_separator = [CHR 0x20, CHR 0xE2, CHR 0x80, CHR 0x94, CHR 0x20]"

text \<open>\<^verbatim>\<open>s.split(sep)[0]\<close>: the part of \<^verbatim>\<open>s\<close> before the first \<^verbatim>\<open>sep\<close>.\<close>

fun before_first :: "string \<Rightarrow> string \<Rightarrow> string" where
  "before_first sep [] = []"
| "before_first sep (c # cs) = (if prefix sep (c # cs) then [] else c # before_first sep cs)"

definition metadata_title :: "pydict \<Rightarrow> exn + string" where
  "metadata_title md =
     (case dict_get md ''title'' of
        None \<Rightarrow> Inr ''Unknown''
      | Some (PStr t) \<Rightarrow>
          Inr (if str_in title_separator t then before_first title_separator t else t)
      | Some _ \<Rightarrow> Inl TypeError)"

definition page_title :: "string option \<Rightarrow> pydict \<Rightarrow> exn + string" where
  "page_title nav_text md =
     (case nav_text of
        None \<Rightarrow> metadata_title md
      | Some t \<Rightarrow> if t \<noteq> [] then Inr t else metadata_title md)"

text \<open>
  \<^verbatim>\<open>soup.find(id=anchor)\<close>: the first element in document order with that id, here
  together with the nodes after it among its siblings.
\<close>

fun find_id :: "string \<Rightarrow> node list \<Rightarrow> (node \<times> node list) option" where
  "find_id anchor [] = None"
| "find_id anchor (Text s # rest) = find_id anchor rest"
| "find_id anchor (Comment s # rest) = find_id anchor rest"
| "find_id anchor (Tag n a cs # rest) =
     (if map_of a ''id'' = Some anchor then Some (Tag n a cs, rest)
      else (case find_id anchor cs of
              Some r \<Rightarrow> Some r
            | None \<Rightarrow> find_id anchor rest))"

text \<open>
  The section of an anchor: the text of the element, then the text of each later
  sibling element up to the first heading of level 1 to 4, the empty texts left out,
  joined with spaces.
\<close>

definition section_text :: "node \<Rightarrow> node list \<Rightarrow> string" where
  "section_text sec following =
     (let content_parts = get_text_strip sec #
            filter (\<lambda>text. text \<noteq> [])
              (map get_text_strip
                 (takeWhile (\<lambda>sibling. name sibling \<notin> set [''h1'', ''h2'', ''h3'', ''h4''])
                    (filter is_tag following)))
      in join '' '' content_parts)"

definition anchor_section :: "string \<Rightarrow> node list \<Rightarrow> string option" where
  "anchor_section u soup =
     (if CHR ''#'' \<in> set u then
        (case split_char (CHR ''#'') u of
           _ # anchor # _ \<Rightarrow>
             (case find_id anchor soup of
                Some (sec, following) \<Rightarrow> Some (section_text sec following)
              | None \<Rightarrow> None)
         | _ \<Rightarrow> None)
      else None)"

text \<open>
  The main content: the first \<^verbatim>\<open>main\<close> or \<^verbatim>\<open>article\<close> element, else the first element
  whose class mentions \<^verbatim>\<open>content\<close>, else the whole soup.
\<close>

definition has_content_class :: "node \<Rightarrow> bool" where
  "has_content_class t =
     (case map_of (attrs t) ''class'' of
        None \<Rightarrow> False
      | Some c \<Rightarrow> c \<noteq> [] \<and> str_in ''content'' (lower c))"

definition main_text :: "node list \<Rightarrow> string" where
  "main_text soup =
     (case find (\<lambda>t. name t \<in> set [''main'', ''article'']) (tags_of soup) of
        Some main_content \<Rightarrow> text_stripped '' '' (children main_content)
      | None \<Rightarrow>
          (case find has_content_class (tags_of soup) of
             Some main_content \<Rightarrow> text_stripped '' '' (children main_content)
           | None \<Rightarrow> text_stripped '' '' soup))"

definition select_content :: "string \<Rightarrow> node list \<Rightarrow> string" where
  "select_content u soup =
     (let section_content =
            (case anchor_section u soup of
               None \<Rightarrow> main_text soup
             | Some s \<Rightarrow> if s = [] then main_text soup else s)
      in join '' '' (split_ws section_content))"

definition document_dict :: "string \<Rightarrow> string \<Rightarrow> string option \<Rightarrow> string \<Rightarrow> string
    \<Rightarrow> pydict" where
  "document_dict title u nav_text section_content crawled_at =
     [(''title'', PStr title),
      (''url'', PStr u),
      (''nav_text'', (case nav_text of None \<Rightarrow> PNone | Some t \<Rightarrow> PStr t)),
      (''content_snippet'', PStr (take 1500 section_content)),
      (''full_content'', PStr section_content),
      (''content_length'', PInt (int (length section_content))),
      (''source_type'', PStr ''motorola_docs''),
      (''crawled_at'', PStr crawled_at)]"

definition crawl_single_page :: "env \<Rightarrow> string \<Rightarrow> string option \<Rightarrow> int \<Rightarrow> event list
    \<Rightarrow> (exn + pydict) \<times> event list" where
  "crawl_single_page e u nav_text max_retries tr =
     (case attempt_loop e u max_retries 0 None None tr of
        (Return d, tr1) \<Rightarrow> (Inr d, tr1)
      | (Left result last_error, tr1) \<Rightarrow>
          (case result of
             None \<Rightarrow> (Inr (error_dict u (or_unknown last_error)), tr1)
           | Some r \<Rightarrow>
               if \<not> success r then (Inr (error_dict u (or_unknown last_error)), tr1)
               else
                 (case clean_soup (html r) of
                    Inl x \<Rightarrow> (Inl x, tr1)
                  | Inr soup \<Rightarrow>
                      (case page_title nav_text (metadata r) of
                         Inl x \<Rightarrow> (Inl x, tr1)
                       | Inr title \<Rightarrow>
                           (Inr (document_dict title u nav_text (select_content u soup)
                                   (now_isoformat e (length tr1))), tr1)))))"

section \<open>The whole bundle: \<^verbatim>\<open>crawl_documentation_bundle\<close>\<close>

text \<open>\<^verbatim>\<open>nav_links[:max_pages]\<close>: a negative bound counts from the end.\<close>

definition slice_to :: "int \<Rightarrow> 'a list \<Rightarrow> 'a list" where
  "slice_to k xs = (if 0 \<le> k then take (nat k) xs else take (length xs - nat (- k)) xs)"

text \<open>
  The loop over the links, on the list \<^verbatim>\<open>documents\<close>: a page whose dict has a true
  \<^verbatim>\<open>error\<close> is reported and left out. Nothing catches an exception of a page crawl:
  it ends the run, and the later links are not crawled.
\<close>

fun crawl_pages :: "env \<Rightarrow> nav_link list \<Rightarrow> pydict list \<Rightarrow> event list
    \<Rightarrow> (exn + pydict list) \<times> event list" where
  "crawl_pages e [] documents tr = (Inr documents, tr)"
| "crawl_pages e (link # links) documents tr =
     (case crawl_single_page e (fst link) (Some (snd link)) 2 tr of
        (Inl x, tr1) \<Rightarrow> (Inl x, tr1)
      | (Inr doc, tr1) \<Rightarrow>
          crawl_pages e links
            (if truthy (dict_get doc ''error'') then documents else documents @ [doc])
            (sleep 500 tr1))"

text \<open>
  \<^verbatim>\<open>if max_pages: nav_links = nav_links[:max_pages]\<close>: the test is Python's truth
  value, false for \<^verbatim>\<open>None\<close> and for 0.
\<close>

definition limit_pages :: "int option \<Rightarrow> 'a list \<Rightarrow> 'a list" where
  "limit_pages max_pages nav_links =
     (case max_pages of
        None \<Rightarrow> nav_links
      | Some k \<Rightarrow> if k \<noteq> 0 then slice_to k nav_links else nav_links)"

definition crawl_documentation_bundle :: "env \<Rightarrow> string \<Rightarrow> int option \<Rightarrow> event list
    \<Rightarrow> (exn + pydict list) \<times> event list" where
  "crawl_documentation_bundle e toc_url max_pages tr =
     (case extract_navigation_links e toc_url tr of
        (Inl x, tr1) \<Rightarrow> (Inl x, tr1)
      | (Inr nav_links, tr1) \<Rightarrow>
          if nav_links = [] then (Inr [], tr1)
          else crawl_pages e (limit_pages max_pages nav_links) [] tr1)"

section \<open>What a run shows\<close>

text \<open>
  The results of all the pages of a run, in the order of the links: the dict of every
  call of \<^const>\<open>crawl_single_page\<close> that the loop of \<^const>\<open>crawl_pages\<close> makes, failed
  or not, up to the first call that raises. The loop itself keeps the documents only;
  this list is what it sees on the way.
\<close>

fun page_results :: "env \<Rightarrow> nav_link list \<Rightarrow> event list \<Rightarrow> pydict list" where
  "page_results e [] tr = []"
| "page_results e (link # links) tr =
     (case crawl_single_page e (fst link) (Some (snd link)) 2 tr of
        (Inl x, tr1) \<Rightarrow> []
      | (Inr doc, tr1) \<Rightarrow> doc # page_results e links (sleep 500 tr1))"

section \<open>What the link loops compute\<close>

text \<open>
  The pairs a list of links offers to the loops: for every link whose \<^verbatim>\<open>href\<close>
  qualifies, the absolute URL and the stripped text, where the text is not empty. These
  are the filters of the source, in its order.
\<close>

definition candidates :: "string \<Rightarrow> node list \<Rightarrow> nav_link list" where
  "candidates bundle_id links =
     filter (\<lambda>l. snd l \<noteq> [])
       (map (\<lambda>link. (absolute_url (get_href link), get_text_strip link))
          (filter (\<lambda>link. qualifies bundle_id (get_href link)) links))"

text \<open>Of the pairs of a list, the first one for every URL outside a given set.\<close>

fun keep_first :: "string set \<Rightarrow> nav_link list \<Rightarrow> nav_link list" where
  "keep_first seen [] = []"
| "keep_first seen (l # ls) =
     (if fst l \<in> seen then keep_first seen ls
      else l # keep_first (insert (fst l) seen) ls)"

text \<open>The links of the section: those below the elements walked up to the stop.\<close>

definition section_links :: "node \<Rightarrow> node list \<Rightarrow> node list" where
  "section_links whats_new_section walked =
     concat (map find_all_a_href
       (takeWhile (\<lambda>current. \<not> (name current \<in> set [''h1'', ''h2'', ''h3''] \<and>
                                 current \<noteq> whats_new_section)) walked))"

text \<open>The links of the fallback: the first link of every list item that has one.\<close>

definition li_links :: "node list \<Rightarrow> node list" where
  "li_links soup = concat (map (\<lambda>li. take 1 (find_all_a_href li)) (find_all_li soup))"

text \<open>
  The links that are scanned: those of the section when a heading is found and the
  section offers a pair, else those of the list items.
\<close>

definition scanned_links :: "string \<Rightarrow> node list \<Rightarrow> node list" where
  "scanned_links bundle_id soup =
     (case find_whats_new soup [] of
        None \<Rightarrow> li_links soup
      | Some (whats_new_section, walked) \<Rightarrow>
          if candidates bundle_id (section_links whats_new_section walked) = []
          then li_links soup
          else section_links whats_new_section walked)"

text \<open>
  Modelled from the spec: the identity key of a navigation link, which section 3 gives
  as the URL normalized to scheme, host, path and fragment, insensitive to a trailing
  slash. The source has no function for it. The key drops the query and the slashes
  that end the path, and keeps the fragment.
\<close>

definition spec_identity_key :: "string \<Rightarrow> string" where
  "spec_identity_key u =
     rev (dropWhile (\<lambda>c. c = CHR ''/'')
            (rev (takeWhile (\<lambda>c. c \<noteq> CHR ''?'' \<and> c \<noteq> CHR ''#'') u))) @
     dropWhile (\<lambda>c. c \<noteq> CHR ''#'') u"

section \<open>Pages and environments for the concrete runs\<close>

text \<open>
  A security block is a fetch that succeeds with one of the two signatures in its
  markdown: the test of the retry loop.
\<close>

definition security_block :: "crawl_result \<Rightarrow> bool" where
  "security_block r \<longleftrightarrow>
     success r \<and>
     (str_in ''Request unsuccessful'' (raw_markdown r) \<or>
      str_in ''Incapsula incident ID'' (raw_markdown r))"

definition page_ok :: "node list \<Rightarrow> crawl_result" where
  "page_ok h =
     \<lparr>success = True, error_message = None, html = h, raw_markdown = ''Release notes'',
      metadata = [(''title'', PStr ''Guide'')]\<rparr>"

definition page_blocked :: crawl_result where
  "page_blocked =
     \<lparr>success = True, error_message = None, html = [],
      raw_markdown = ''Request unsuccessful. Incapsula incident ID: 1'', metadata = []\<rparr>"

definition page_failed :: crawl_result where
  "page_failed =
     \<lparr>success = False, error_message = Some ''net::ERR_CONNECTION_RESET'', html = [],
      raw_markdown = [], metadata = []\<rparr>"

text \<open>An environment that answers the fetches of a run from a list, then fails.\<close>

definition env_of :: "crawl_result list \<Rightarrow> env" where
  "env_of rs =
     \<lparr>arun = (\<lambda>k u. if k < length rs then rs ! k else page_failed),
      now_isoformat = (\<lambda>k. ''2025-01-01T00:00:00'')\<rparr>"

definition env_always :: "crawl_result \<Rightarrow> env" where
  "env_always r = \<lparr>arun = (\<lambda>k u. r), now_isoformat = (\<lambda>k. ''2025-01-01T00:00:00'')\<rparr>"

definition toc_url_89303 :: string where
  "toc_url_89303 = ''https://docs.motorolasolutions.com/bundle/89303/page/23111842.html''"

definition li_link :: "string \<Rightarrow> string \<Rightarrow> node" where
  "li_link h t = Tag ''li'' [] [Tag ''a'' [(''href'', h)] [Text t]]"

text \<open>A table of contents with a section \<^verbatim>\<open>What's New\<close> of two pages.\<close>

definition toc_two :: "node list" where
  "toc_two =
     [Tag ''h2'' [] [Text ''What's New''],
      Tag ''ul'' [] [li_link ''/bundle/89303/page/a.html'' ''A'',
                     li_link ''/bundle/89303/page/b.html'' ''B''],
      Tag ''h2'' [] [Text ''More'']]"

text \<open>A table of contents without the heading: list items only.\<close>

definition toc_plain :: "node list" where
  "toc_plain = [Tag ''ul'' [] [li_link ''/bundle/89303/page/a.html'' ''A'']]"

text \<open>A section whose two links differ in a trailing slash only.\<close>

definition toc_slash :: "node list" where
  "toc_slash =
     [Tag ''h2'' [] [Text ''What's New''],
      Tag ''ul'' [] [li_link ''/bundle/89303/page/a'' ''A'',
                     li_link ''/bundle/89303/page/a/'' ''A again'']]"

text \<open>A section that links one page twice, first around an image, without any text.\<close>

definition toc_image :: "node list" where
  "toc_image =
     [Tag ''h2'' [] [Text ''What's New''],
      Tag ''ul'' [] [Tag ''li'' [] [Tag ''a'' [(''href'', ''/bundle/89303/page/a.html'')]
                                     [Tag ''img'' [(''src'', ''a.png'')] []]],
                     li_link ''/bundle/89303/page/a.html'' ''Later'']]"

text \<open>
  A run over \<^const>\<open>toc_two\<close> in which every fetch of the first page fails and the
  second page is fetched at once.
\<close>

definition env_first_page_fails :: "node list \<Rightarrow> env" where
  "env_first_page_fails page =
     env_of [page_ok toc_two, page_failed, page_failed, page_failed, page_ok page]"

text \<open>A section that links the first of two pages a second time, under another text.\<close>

definition toc_repeat :: "node list" where
  "toc_repeat =
     [Tag ''h2'' [] [Text ''What's New''],
      Tag ''ul'' [] [li_link ''/bundle/89303/page/a.html'' ''A'',
                     li_link ''/bundle/89303/page/b.html'' ''B'',
                     li_link ''/bundle/89303/page/a.html'' ''A again'']]"

text \<open>
  A page with a cookie banner: a notice of more than 100 characters and, after it in
  the same block, the link to the settings.
\<close>

definition page_banner :: "node list" where
  "page_banner =
     [Tag ''div'' [(''class'', ''banner'')]
        [Text (''We use cookies to give you the best experience on our website. '' @
               ''By continuing to browse you agree to our use of cookies.''),
         Tag ''a'' [(''href'', ''/settings'')] [Text ''Cookie settings'']],
      Tag ''p'' [] [Text ''Release notes of the version'']]"

text \<open>A page with an anchored section, two paragraphs and the next heading.\<close>

definition page_sec1 :: "node list" where
  "page_sec1 =
     [Tag ''div'' [(''id'', ''sec1'')] [Text ''Intro''],
      Tag ''p'' [] [Text ''one''],
      Tag ''p'' [] [Text ''two''],
      Tag ''h2'' [] [Text ''Next''],
      Tag ''p'' [] [Text ''after'']]"


text \<open>A run over \<^const>\<open>toc_two\<close> whose first page carries the banner.\<close>

definition env_banner :: env where
  "env_banner = env_of [page_ok toc_two, page_ok page_banner, page_ok page_sec1]"

section \<open>The result of one page\<close>

lemma attempt_loop_Return:
  "attempt_loop e u max_retries attempt result last_error tr = (Return d, tr') \<Longrightarrow>
     d = error_dict u ''Security block (WAF/CDN)''"
proof (induction e u max_retries attempt result last_error tr rule: attempt_loop.induct)
  case (1 e u max_retries attempt result last_error tr)
  show ?case
    using "1.prems" "1.IH"
    by (subst (asm) attempt_loop.simps)
       (auto simp: Let_def split: if_splits prod.splits)
qed

lemma truthy_error_dict: "truthy (dict_get (error_dict u m) ''error'')"
  by (simp add: error_dict_def dict_get_def)

lemma not_truthy_document_dict:
  "\<not> truthy (dict_get (document_dict title u nav_text sc ts) ''error'')"
  by (simp add: document_dict_def dict_get_def)

text \<open>A page crawl that returns gives an error dict or a document dict.\<close>

lemma crawl_single_page_cases:
  assumes "crawl_single_page e u nav_text max_retries tr = (Inr doc, tr')"
  shows "(\<exists>m. doc = error_dict u m) \<or>
         (\<exists>title sc ts. doc = document_dict title u nav_text sc ts)"
proof -
  obtain x tr1 where loop: "attempt_loop e u max_retries 0 None None tr = (x, tr1)"
    by (cases "attempt_loop e u max_retries 0 None None tr")
  show ?thesis
  proof (cases x)
    case (Return d)
    with loop assms have "doc = d"
      by (simp add: crawl_single_page_def)
    moreover from loop Return have "d = error_dict u ''Security block (WAF/CDN)''"
      using attempt_loop_Return by simp
    ultimately show ?thesis by blast
  next
    case (Left result last_error)
    note L = this
    show ?thesis
    proof (cases result)
      case None
      with loop L assms show ?thesis
        by (simp add: crawl_single_page_def) blast
    next
      case (Some r)
      note S = this
      show ?thesis
      proof (cases "success r")
        case False
        with loop L S assms show ?thesis
          by (simp add: crawl_single_page_def) blast
      next
        case True
        note T = this
        show ?thesis
        proof (cases "clean_soup (html r)")
          case (Inl x)
          with loop L S T assms show ?thesis
            by (simp add: crawl_single_page_def)
        next
          case (Inr soup)
          note C = this
          show ?thesis
          proof (cases "page_title nav_text (metadata r)")
            case (Inl x)
            with loop L S T C assms show ?thesis
              by (simp add: crawl_single_page_def)
          next
            case (Inr title)
            with loop L S T C assms show ?thesis
              by (simp add: crawl_single_page_def) blast
          qed
        qed
      qed
    qed
  qed
qed

text \<open>
  Claim C1. Whenever \<^const>\<open>crawl_single_page\<close> returns the dict of a crawled page (one
  without a true \<^verbatim>\<open>error\<close>), its \<^verbatim>\<open>content_snippet\<close> is the first 1500 characters of
  its \<^verbatim>\<open>full_content\<close>, so a prefix of it and all of it when that is no longer than
  1500 characters, and its \<^verbatim>\<open>content_length\<close> is the length of \<^verbatim>\<open>full_content\<close>.
\<close>

theorem snippet_invariant:
  assumes "crawl_single_page e u nav_text max_retries tr = (Inr doc, tr')"
    and "\<not> truthy (dict_get doc ''error'')"
  shows "\<exists>full_content.
           dict_get doc ''full_content'' = Some (PStr full_content) \<and>
           dict_get doc ''content_snippet'' = Some (PStr (take 1500 full_content)) \<and>
           dict_get doc ''content_length'' = Some (PInt (int (length full_content))) \<and>
           prefix (take 1500 full_content) full_content \<and>
           (length full_content \<le> 1500 \<longrightarrow> take 1500 full_content = full_content)"
proof -
  from crawl_single_page_cases [OF assms(1)] assms(2) truthy_error_dict
  obtain title sc ts where "doc = document_dict title u nav_text sc ts"
    by blast
  then have "dict_get doc ''full_content'' = Some (PStr sc)"
    and "dict_get doc ''content_snippet'' = Some (PStr (take 1500 sc))"
    and "dict_get doc ''content_length'' = Some (PInt (int (length sc)))"
    by (simp_all add: document_dict_def dict_get_def)
  moreover have "prefix (take 1500 sc) sc"
    by (rule take_is_prefix)
  moreover have "length sc \<le> 1500 \<longrightarrow> take 1500 sc = sc"
    by simp
  ultimately show ?thesis
    by blast
qed

theorem snippet_invariant_witness:
  "crawl_single_page (env_always (page_ok page_sec1)) ''https://h/p#sec1'' (Some ''A'') 2 [] =
     (Inr (document_dict ''A'' ''https://h/p#sec1'' (Some ''A'') ''Intro one two''
             ''2025-01-01T00:00:00''),
      [Fetch ''https://h/p#sec1'']) \<and>
   (\<exists>full_content.
      dict_get (document_dict ''A'' ''https://h/p#sec1'' (Some ''A'') ''Intro one two''
                  ''2025-01-01T00:00:00'') ''full_content'' = Some (PStr full_content) \<and>
      dict_get (document_dict ''A'' ''https://h/p#sec1'' (Some ''A'') ''Intro one two''
                  ''2025-01-01T00:00:00'') ''content_snippet'' =
        Some (PStr (take 1500 full_content)) \<and>
      dict_get (document_dict ''A'' ''https://h/p#sec1'' (Some ''A'') ''Intro one two''
                  ''2025-01-01T00:00:00'') ''content_length'' =
        Some (PInt (int (length full_content))) \<and>
      prefix (take 1500 full_content) full_content \<and>
      (length full_content \<le> 1500 \<longrightarrow> take 1500 full_content = full_content))"
proof -
  have run: "crawl_single_page (env_always (page_ok page_sec1)) ''https://h/p#sec1''
               (Some ''A'') 2 [] =
     (Inr (document_dict ''A'' ''https://h/p#sec1'' (Some ''A'') ''Intro one two''
             ''2025-01-01T00:00:00''),
      [Fetch ''https://h/p#sec1''])"
    by code_simp
  show ?thesis
    using run snippet_invariant [OF run not_truthy_document_dict] by blast
qed

section \<open>Retries\<close>

text \<open>
  Claim C2, as the code has it. When every fetch of the page is a security block,
  \<^const>\<open>crawl_single_page\<close> with \<^verbatim>\<open>max_retries=2\<close> fetches the page exactly three times,
  with a pause of three seconds after the first and after the second, and returns the
  error dict of the URL with the reason of the last failure. The dict has no field for
  the number of attempts.
\<close>

theorem retry_exhaustion:
  assumes "\<forall>k. security_block (arun e k u)"
  shows "crawl_single_page e u nav_text 2 tr =
           (Inr [(''error'', PBool True), (''url'', PStr u),
                 (''error_message'', PStr ''Security block (WAF/CDN)'')],
            tr @ [Fetch u, Sleep 3000, Fetch u, Sleep 3000, Fetch u])"
proof -
  have retry: "attempt_loop e u 2 a r l t =
      attempt_loop e u 2 (a + 1) (Some (arun e (fetch_count t) u))
        (Some ''Security block (WAF/CDN)'') (t @ [Fetch u, Sleep 3000])"
    if "a < 2" for a r l t
    using assms that
    by (subst attempt_loop.simps) (simp add: security_block_def do_arun_def sleep_def)
  have final: "attempt_loop e u 2 2 r l t =
      (Return (error_dict u ''Security block (WAF/CDN)''), t @ [Fetch u])" for r l t
    using assms
    by (subst attempt_loop.simps) (simp add: security_block_def do_arun_def sleep_def)
  have "attempt_loop e u 2 0 None None tr =
      (Return (error_dict u ''Security block (WAF/CDN)''),
       tr @ [Fetch u, Sleep 3000, Fetch u, Sleep 3000, Fetch u])"
    by (simp add: retry final)
  then show ?thesis
    by (simp add: crawl_single_page_def error_dict_def)
qed

theorem retry_exhaustion_witness:
  "(\<forall>k. security_block (arun (env_always page_blocked) k ''u'')) \<and>
   crawl_single_page (env_always page_blocked) ''u'' (Some ''n'') 2 [] =
     (Inr [(''error'', PBool True), (''url'', PStr ''u''),
           (''error_message'', PStr ''Security block (WAF/CDN)'')],
      [Fetch ''u'', Sleep 3000, Fetch ''u'', Sleep 3000, Fetch ''u''])"
proof -
  have blocked: "\<forall>k. security_block (arun (env_always page_blocked) k ''u'')"
    by (simp add: env_always_def page_blocked_def security_block_def)
  show ?thesis
    using blocked retry_exhaustion [OF blocked, of "Some ''n''" "[]"] by simp
qed

text \<open>
  The claim as it is written fails: after the three blocked fetches the dict returned
  has the keys \<^verbatim>\<open>error\<close>, \<^verbatim>\<open>url\<close> and \<^verbatim>\<open>error_message\<close> only, and none of its values is
  the number 3.
\<close>

theorem retry_exhaustion_counterexample:
  "crawl_single_page (env_always page_blocked) ''u'' (Some ''n'') 2 [] =
     (Inr [(''error'', PBool True), (''url'', PStr ''u''),
           (''error_message'', PStr ''Security block (WAF/CDN)'')],
      [Fetch ''u'', Sleep 3000, Fetch ''u'', Sleep 3000, Fetch ''u'']) \<and>
   fetch_count [Fetch ''u'', Sleep 3000, Fetch ''u'', Sleep 3000, Fetch ''u''] = 3 \<and>
   PInt 3 \<notin> snd ` set [(''error'', PBool True), (''url'', PStr ''u''),
                         (''error_message'', PStr ''Security block (WAF/CDN)'')]"
proof -
  have "crawl_single_page (env_always page_blocked) ''u'' (Some ''n'') 2 [] =
     (Inr [(''error'', PBool True), (''url'', PStr ''u''),
           (''error_message'', PStr ''Security block (WAF/CDN)'')],
      [Fetch ''u'', Sleep 3000, Fetch ''u'', Sleep 3000, Fetch ''u''])"
    by code_simp
  then show ?thesis
    by (simp add: fetch_count_def)
qed

section \<open>Failures before the pages\<close>

text \<open>
  Claim C5, as the code has it. When the pattern \<^verbatim>\<open>/bundle/(\d+)/\<close> finds no bundle
  id in the URL of the table of contents, \<^const>\<open>extract_navigation_links\<close> fetches the
  page and returns the empty list of links: the normal result of a page without links,
  and no error.
\<close>

theorem no_bundle_id_gives_no_links:
  assumes "bundle_match toc_url = None"
  shows "extract_navigation_links e toc_url tr = (Inr [], tr @ [Fetch toc_url])"
  using assms by (simp add: extract_navigation_links_def do_arun_def)

theorem no_bundle_id_gives_no_links_witness:
  "bundle_match ''https://docs.motorolasolutions.com/page/23111842.html'' = None \<and>
   extract_navigation_links (env_always (page_ok toc_two))
     ''https://docs.motorolasolutions.com/page/23111842.html'' [] =
     (Inr [], [Fetch ''https://docs.motorolasolutions.com/page/23111842.html''])"
proof -
  have none: "bundle_match ''https://docs.motorolasolutions.com/page/23111842.html'' = None"
    by code_simp
  show ?thesis
    using none no_bundle_id_gives_no_links [OF none, of "env_always (page_ok toc_two)" "[]"]
    by simp
qed

text \<open>
  The claim as it is written fails: for a URL without a bundle id the function returns
  the empty list, as it does for a page of the bundle that has no links at all.
\<close>

theorem no_bundle_id_counterexample:
  "fst (extract_navigation_links (env_always (page_ok toc_two))
          ''https://docs.motorolasolutions.com/page/23111842.html'' []) = Inr [] \<and>
   fst (extract_navigation_links (env_always (page_ok [])) toc_url_89303 []) = Inr []"
  by code_simp

text \<open>
  Claim C6, as the code has it. When the fetch of the table of contents fails,
  \<^const>\<open>crawl_documentation_bundle\<close> returns the empty list of documents, the normal
  result of a run that found no links, and no error; the fetch of the table of contents
  is the only event of the run, so no page is crawled.
\<close>

theorem toc_fetch_failure_gives_no_documents:
  assumes "\<not> success (arun e (fetch_count tr) toc_url)"
  shows "crawl_documentation_bundle e toc_url max_pages tr = (Inr [], tr @ [Fetch toc_url])"
  using assms
  by (simp add: crawl_documentation_bundle_def extract_navigation_links_def do_arun_def)

theorem toc_fetch_failure_gives_no_documents_witness:
  "\<not> success (arun (env_always page_failed) (fetch_count []) toc_url_89303) \<and>
   crawl_documentation_bundle (env_always page_failed) toc_url_89303 None [] =
     (Inr [], [Fetch toc_url_89303])"
proof -
  have failed: "\<not> success (arun (env_always page_failed) (fetch_count []) toc_url_89303)"
    by (simp add: env_always_def page_failed_def)
  show ?thesis
    using failed toc_fetch_failure_gives_no_documents [OF failed, of None] by simp
qed

text \<open>
  The claim as it is written fails: the run whose table of contents cannot be fetched
  ends with the value \<open>Inr []\<close>, a returned empty list, and not with an error.
\<close>

theorem toc_fetch_failure_counterexample:
  "crawl_documentation_bundle (env_always page_failed) toc_url_89303 None [] =
     (Inr [], [Fetch toc_url_89303])"
  by code_simp

section \<open>The fallback to the list items\<close>

text \<open>
  Claim C4 fails on the code. A table of contents without the heading and with one
  qualifying link in a list item: the fallback reads \<^verbatim>\<open>seen_urls\<close>, which only the
  branch of a found heading assigns, and the call ends with \<^verbatim>\<open>UnboundLocalError\<close>
  where the claim has the list of that one link.
\<close>

theorem fallback_without_heading_raises:
  "extract_navigation_links (env_always (page_ok toc_plain)) toc_url_89303 [] =
     (Inl UnboundLocalError, [Fetch toc_url_89303])"
  by code_simp

section \<open>The link loops and what they compute\<close>

lemma candidates_append:
  "candidates b (xs @ ys) = candidates b xs @ candidates b ys"
  by (simp add: candidates_def)

lemma candidates_Nil: "candidates b [] = []"
  by (simp add: candidates_def)

lemma candidates_Cons:
  "candidates b (link # links) =
     (if qualifies b (get_href link) \<and> get_text_strip link \<noteq> []
      then (absolute_url (get_href link), get_text_strip link) # candidates b links
      else candidates b links)"
  by (simp add: candidates_def)

lemma candidates_texts: "l \<in> set (candidates b links) \<Longrightarrow> snd l \<noteq> []"
  by (simp add: candidates_def)

lemma keep_first_append:
  "keep_first seen (xs @ ys) = keep_first seen xs @ keep_first (seen \<union> fst ` set xs) ys"
  by (induction xs arbitrary: seen) (auto simp: insert_absorb)

lemma keep_first_urls: "fst ` set (keep_first seen xs) = fst ` set xs - seen"
  by (induction xs arbitrary: seen) auto

lemma keep_first_distinct: "distinct (map fst (keep_first seen xs))"
  by (induction xs arbitrary: seen) (auto simp: keep_first_urls)

lemma keep_first_subseq: "subseq (keep_first seen xs) xs"
  by (induction xs arbitrary: seen) auto

lemma keep_first_map_of:
  "map_of (keep_first seen xs) k = (if k \<in> seen then None else map_of xs k)"
proof (induction xs arbitrary: seen)
  case Nil
  show ?case by simp
next
  case (Cons l ls)
  obtain u t where l: "l = (u, t)" by (cases l)
  show ?case
    using Cons.IH [of seen] Cons.IH [of "insert u seen"]
    by (auto simp: l)
qed

lemma keep_first_empty [simp]: "keep_first {} xs = [] \<longleftrightarrow> xs = []"
  by (cases xs) simp_all

lemma add_links_eq:
  "add_links b ls (seen, acc) =
     (seen \<union> fst ` set (candidates b ls), acc @ keep_first seen (candidates b ls))"
proof (induction ls arbitrary: seen acc)
  case Nil
  show ?case by (simp add: candidates_Nil)
next
  case (Cons link ls)
  show ?case
    by (auto simp: candidates_Cons Cons.IH Let_def insert_absorb)
qed

lemma walk_section_eq:
  "walk_section b h walked (seen, acc) =
     (seen \<union> fst ` set (candidates b (section_links h walked)),
      acc @ keep_first seen (candidates b (section_links h walked)))"
proof (induction walked arbitrary: seen acc)
  case Nil
  show ?case by (simp add: section_links_def candidates_Nil)
next
  case (Cons current rest)
  show ?case
  proof (cases "name current \<in> set [''h1'', ''h2'', ''h3''] \<and> current \<noteq> h")
    case True
    then have "section_links h (current # rest) = []"
      by (auto simp: section_links_def)
    moreover have "walk_section b h (current # rest) (seen, acc) = (seen, acc)"
      using True by auto
    ultimately show ?thesis
      by (simp add: candidates_Nil)
  next
    case False
    then have split: "section_links h (current # rest) =
        find_all_a_href current @ section_links h rest"
      by (auto simp: section_links_def)
    have step: "walk_section b h (current # rest) (seen, acc) =
        walk_section b h rest (add_links b (find_all_a_href current) (seen, acc))"
      using False by auto
    show ?thesis
      unfolding step add_links_eq Cons.IH split candidates_append keep_first_append
      by (simp add: Un_assoc image_Un)
  qed
qed


lemma fallback_links_bound:
  "fallback_links b lis (Some seen) acc =
     Inr (acc @ keep_first seen
            (candidates b (concat (map (\<lambda>li. take 1 (find_all_a_href li)) lis))))"
proof (induction lis arbitrary: seen acc)
  case Nil
  show ?case by (simp add: candidates_Nil)
next
  case (Cons li lis)
  show ?case
  proof (cases "find_all_a_href li")
    case Nil
    then show ?thesis
      by (simp add: Cons.IH)
  next
    case (Cons link more)
    then show ?thesis
      by (auto simp: Cons.IH candidates_Cons Let_def)
  qed
qed

lemma fallback_links_unbound:
  "fallback_links b lis None acc = Inr out \<Longrightarrow>
     out = acc \<and> candidates b (concat (map (\<lambda>li. take 1 (find_all_a_href li)) lis)) = [] \<and>
     filter (\<lambda>link. qualifies b (get_href link))
       (concat (map (\<lambda>li. take 1 (find_all_a_href li)) lis)) = []"
proof (induction lis arbitrary: acc)
  case Nil
  then show ?case by (simp add: candidates_Nil)
next
  case (Cons li lis)
  show ?case
  proof (cases "find_all_a_href li")
    case Nil
    with Cons show ?thesis
      by simp
  next
    case (Cons link more)
    with Cons.prems Cons.IH [of acc] show ?thesis
      by (auto simp: candidates_Cons Let_def split: if_splits)
  qed
qed

lemma links_of_soup_eq:
  assumes "links_of_soup b soup = Inr links"
  shows "links = keep_first {} (candidates b (scanned_links b soup))"
proof (cases "find_whats_new soup []")
  case None
  with assms have "fallback_links b (find_all_li soup) None [] = Inr links"
    by (simp add: links_of_soup_def)
  from fallback_links_unbound [OF this] None show ?thesis
    by (simp add: scanned_links_def li_links_def)
next
  case (Some found)
  obtain h walked where found: "found = (h, walked)" by (cases found)
  let ?cands = "candidates b (section_links h walked)"
  show ?thesis
  proof (cases "?cands = []")
    case True
    with assms Some found
    have "fallback_links b (find_all_li soup) (Some {}) [] = Inr links"
      by (simp add: links_of_soup_def walk_section_eq)
    with True Some found show ?thesis
      by (simp add: fallback_links_bound scanned_links_def li_links_def)
  next
    case False
    with assms Some found have "links = keep_first {} ?cands"
      by (simp add: links_of_soup_def walk_section_eq)
    with False Some found show ?thesis
      by (simp add: scanned_links_def)
  qed
qed

section \<open>The run over the bundle\<close>

lemma keep_first_set: "set (keep_first seen xs) \<subseteq> set xs"
  by (induction xs arbitrary: seen) auto

lemma extract_links_of_soup:
  assumes "extract_navigation_links e toc_url tr = (Inr links, tr1)"
  shows "links = [] \<or>
         (\<exists>b. success (arun e (fetch_count tr) toc_url) \<and> bundle_match toc_url = Some b \<and>
              links_of_soup b (html (arun e (fetch_count tr) toc_url)) = Inr links)"
  using assms
  by (auto simp: extract_navigation_links_def do_arun_def split: if_splits option.splits)

lemma extract_texts:
  assumes "extract_navigation_links e toc_url tr = (Inr links, tr1)"
  shows "\<forall>l \<in> set links. snd l \<noteq> []"
  using extract_links_of_soup [OF assms]
proof
  assume "links = []"
  then show ?thesis by simp
next
  assume "\<exists>b. success (arun e (fetch_count tr) toc_url) \<and> bundle_match toc_url = Some b \<and>
              links_of_soup b (html (arun e (fetch_count tr) toc_url)) = Inr links"
  then obtain b where "links_of_soup b (html (arun e (fetch_count tr) toc_url)) = Inr links"
    by blast
  from links_of_soup_eq [OF this] obtain offered
    where "set links \<subseteq> set (candidates b offered)"
    using keep_first_set by blast
  then show ?thesis
    using candidates_texts by blast
qed

lemma slice_to_set: "set (slice_to k xs) \<subseteq> set xs"
  by (auto simp: slice_to_def dest: in_set_takeD)

lemma limit_pages_set: "set (limit_pages max_pages xs) \<subseteq> set xs"
proof (cases max_pages)
  case None
  then show ?thesis by (simp add: limit_pages_def)
next
  case (Some k)
  then show ?thesis
    using slice_to_set [of k xs] by (simp add: limit_pages_def)
qed

lemma limit_pages_Nil: "limit_pages max_pages [] = []"
  by (simp add: limit_pages_def slice_to_def split: option.splits)

lemma bundle_eq_crawl_pages:
  assumes "extract_navigation_links e toc_url tr = (Inr links, tr1)"
  shows "crawl_documentation_bundle e toc_url max_pages tr =
           crawl_pages e (limit_pages max_pages links) [] tr1"
  using assms by (simp add: crawl_documentation_bundle_def limit_pages_Nil)

lemma limit_pages_positive: "0 < k \<Longrightarrow> limit_pages (Some k) links = take (nat k) links"
  by (simp add: limit_pages_def slice_to_def)

lemma limit_pages_zero: "limit_pages (Some 0) links = links"
  by (simp add: limit_pages_def)

lemma limit_pages_None: "limit_pages None links = links"
  by (simp add: limit_pages_def)

text \<open>
  A loop over the pages that returns has seen one result for every link, and returns
  those of them that are no errors, after the documents it started with.
\<close>

lemma crawl_pages_returned:
  "crawl_pages e links docs tr = (Inr out, tr') \<Longrightarrow>
     out = docs @ filter (\<lambda>d. \<not> truthy (dict_get d ''error'')) (page_results e links tr) \<and>
     length (page_results e links tr) = length links"
proof (induction links arbitrary: docs tr)
  case Nil
  then show ?case by simp
next
  case (Cons link links)
  obtain r tr1 where page: "crawl_single_page e (fst link) (Some (snd link)) 2 tr = (r, tr1)"
    by (cases "crawl_single_page e (fst link) (Some (snd link)) 2 tr")
  show ?case
  proof (cases r)
    case (Inl x)
    with Cons.prems page show ?thesis
      by simp
  next
    case (Inr doc)
    define docs1 where
      "docs1 = (if truthy (dict_get doc ''error'') then docs else docs @ [doc])"
    have "crawl_pages e links docs1 (sleep 500 tr1) = (Inr out, tr')"
      using Cons.prems page Inr by (simp add: docs1_def)
    from Cons.IH [OF this]
    have "out = docs1 @ filter (\<lambda>d. \<not> truthy (dict_get d ''error''))
                         (page_results e links (sleep 500 tr1))"
      and "length (page_results e links (sleep 500 tr1)) = length links"
      by simp_all
    with page Inr show ?thesis
      by (simp add: docs1_def)
  qed
qed

text \<open>
  Claim C3, as the code has it. Whenever \<^const>\<open>crawl_documentation_bundle\<close> returns
  its list, the list holds the documents only: of the results of the pages crawled,
  one for every link after the limit and in the order of the links, it is the sublist
  of those without a true \<^verbatim>\<open>error\<close>. The failed pages are reported on the way and
  left out.
\<close>

theorem session_keeps_documents_only:
  assumes "extract_navigation_links e toc_url tr = (Inr links, tr1)"
    and "crawl_documentation_bundle e toc_url max_pages tr = (Inr docs, tr')"
  shows "docs = filter (\<lambda>d. \<not> truthy (dict_get d ''error''))
                  (page_results e (limit_pages max_pages links) tr1) \<and>
         length (page_results e (limit_pages max_pages links) tr1) =
           length (limit_pages max_pages links)"
proof -
  have "crawl_pages e (limit_pages max_pages links) [] tr1 = (Inr docs, tr')"
    using bundle_eq_crawl_pages [OF assms(1), of max_pages] assms(2) by simp
  from crawl_pages_returned [OF this] show ?thesis
    by simp
qed

theorem session_keeps_documents_only_witness:
  "extract_navigation_links (env_first_page_fails page_sec1) toc_url_89303 [] =
     (Inr [(''https://docs.motorolasolutions.com/bundle/89303/page/a.html'', ''A''),
           (''https://docs.motorolasolutions.com/bundle/89303/page/b.html'', ''B'')],
      [Fetch toc_url_89303]) \<and>
   fst (crawl_documentation_bundle (env_first_page_fails page_sec1) toc_url_89303 None []) =
     Inr [document_dict ''B'' ''https://docs.motorolasolutions.com/bundle/89303/page/b.html''
            (Some ''B'') ''Intro one two Next after'' ''2025-01-01T00:00:00''] \<and>
   [document_dict ''B'' ''https://docs.motorolasolutions.com/bundle/89303/page/b.html''
      (Some ''B'') ''Intro one two Next after'' ''2025-01-01T00:00:00''] =
     filter (\<lambda>d. \<not> truthy (dict_get d ''error''))
       (page_results (env_first_page_fails page_sec1)
          (limit_pages None
             [(''https://docs.motorolasolutions.com/bundle/89303/page/a.html'', ''A''),
              (''https://docs.motorolasolutions.com/bundle/89303/page/b.html'', ''B'')])
          [Fetch toc_url_89303]) \<and>
   length (page_results (env_first_page_fails page_sec1)
             (limit_pages None
                [(''https://docs.motorolasolutions.com/bundle/89303/page/a.html'', ''A''),
                 (''https://docs.motorolasolutions.com/bundle/89303/page/b.html'', ''B'')])
             [Fetch toc_url_89303]) =
     length (limit_pages None
               [(''https://docs.motorolasolutions.com/bundle/89303/page/a.html'', ''A''),
                (''https://docs.motorolasolutions.com/bundle/89303/page/b.html'', ''B'')])"
proof -
  have links: "extract_navigation_links (env_first_page_fails page_sec1) toc_url_89303 [] =
     (Inr [(''https://docs.motorolasolutions.com/bundle/89303/page/a.html'', ''A''),
           (''https://docs.motorolasolutions.com/bundle/89303/page/b.html'', ''B'')],
      [Fetch toc_url_89303])"
    by code_simp
  obtain r tr' where run:
    "crawl_documentation_bundle (env_first_page_fails page_sec1) toc_url_89303 None [] = (r, tr')"
    by (cases "crawl_documentation_bundle (env_first_page_fails page_sec1) toc_url_89303 None []")
  have "fst (crawl_documentation_bundle (env_first_page_fails page_sec1) toc_url_89303 None []) =
     Inr [document_dict ''B'' ''https://docs.motorolasolutions.com/bundle/89303/page/b.html''
            (Some ''B'') ''Intro one two Next after'' ''2025-01-01T00:00:00'']"
    by code_simp
  with run have r: "r =
     Inr [document_dict ''B'' ''https://docs.motorolasolutions.com/bundle/89303/page/b.html''
            (Some ''B'') ''Intro one two Next after'' ''2025-01-01T00:00:00'']"
    by simp
  have returned: "crawl_documentation_bundle (env_first_page_fails page_sec1) toc_url_89303 None [] =
     (Inr [document_dict ''B'' ''https://docs.motorolasolutions.com/bundle/89303/page/b.html''
            (Some ''B'') ''Intro one two Next after'' ''2025-01-01T00:00:00''], tr')"
    using run r by simp
  have first: "fst (crawl_documentation_bundle (env_first_page_fails page_sec1)
                      toc_url_89303 None []) =
     Inr [document_dict ''B'' ''https://docs.motorolasolutions.com/bundle/89303/page/b.html''
            (Some ''B'') ''Intro one two Next after'' ''2025-01-01T00:00:00'']"
    using returned by simp
  show ?thesis
    by (rule conjI [OF links conjI [OF first session_keeps_documents_only [OF links returned]]])
qed

text \<open>
  The claim as it is written fails: in a run over two pages of which the first fails
  at every attempt, the list returned has the document of the second page and nothing
  of the first, whose result with its reason was there in the loop.
\<close>

theorem session_drops_failures_counterexample:
  "fst (crawl_documentation_bundle (env_first_page_fails page_sec1) toc_url_89303 None []) =
     Inr [document_dict ''B'' ''https://docs.motorolasolutions.com/bundle/89303/page/b.html''
            (Some ''B'') ''Intro one two Next after'' ''2025-01-01T00:00:00''] \<and>
   page_results (env_first_page_fails page_sec1)
     [(''https://docs.motorolasolutions.com/bundle/89303/page/a.html'', ''A''),
      (''https://docs.motorolasolutions.com/bundle/89303/page/b.html'', ''B'')]
     [Fetch toc_url_89303] =
     [error_dict ''https://docs.motorolasolutions.com/bundle/89303/page/a.html''
        ''net::ERR_CONNECTION_RESET'',
      document_dict ''B'' ''https://docs.motorolasolutions.com/bundle/89303/page/b.html''
        (Some ''B'') ''Intro one two Next after'' ''2025-01-01T00:00:00'']"
  by code_simp


section \<open>A page that ends the run\<close>

text \<open>
  The cut of the list of links is as the spec has it: for a positive \<^verbatim>\<open>max_pages\<close>
  the loop over the pages is given the first links, up to that number, and for 0, as
  for \<^verbatim>\<open>None\<close>, all of them (\<open>limit_pages_positive\<close>, \<open>limit_pages_zero\<close>,
  \<open>bundle_eq_crawl_pages\<close>). What fails is the loop.
\<close>

text \<open>
  Claim C9 fails on the code. Two links are found and \<^verbatim>\<open>max_pages\<close> is 2. The first
  page has a cookie banner: a notice of more than 100 characters and, after it in the
  same block, the link \<^verbatim>\<open>Cookie settings\<close>. The cleaning loop decomposes the block for
  the notice and then reads \<^verbatim>\<open>element.parent\<close> of the string of the link, which went
  with the block: \<^verbatim>\<open>AttributeError\<close>. Nothing catches it, the run ends after the one
  fetch of the first page, and the second of the two links is never crawled.
\<close>

theorem banner_page_ends_limited_run:
  "extract_navigation_links env_banner toc_url_89303 [] =
     (Inr [(''https://docs.motorolasolutions.com/bundle/89303/page/a.html'', ''A''),
           (''https://docs.motorolasolutions.com/bundle/89303/page/b.html'', ''B'')],
      [Fetch toc_url_89303]) \<and>
   crawl_documentation_bundle env_banner toc_url_89303 (Some 2) [] =
     (Inl AttributeError,
      [Fetch toc_url_89303,
       Fetch ''https://docs.motorolasolutions.com/bundle/89303/page/a.html''])"
  by code_simp

text \<open>
  Claim C10 fails on the code in the same way. With \<^verbatim>\<open>max_pages=0\<close> the run is the
  run without a limit (\<open>limit_pages_zero\<close>), and on the same two pages it ends with
  \<^verbatim>\<open>AttributeError\<close> in the first: of the two links found, the second is never
  crawled.
\<close>

theorem banner_page_ends_unlimited_run:
  "crawl_documentation_bundle env_banner toc_url_89303 (Some 0) [] =
     (Inl AttributeError,
      [Fetch toc_url_89303,
       Fetch ''https://docs.motorolasolutions.com/bundle/89303/page/a.html'']) \<and>
   crawl_documentation_bundle env_banner toc_url_89303 None [] =
     crawl_documentation_bundle env_banner toc_url_89303 (Some 0) [] \<and>
   fst (extract_navigation_links env_banner toc_url_89303 []) =
     Inr [(''https://docs.motorolasolutions.com/bundle/89303/page/a.html'', ''A''),
          (''https://docs.motorolasolutions.com/bundle/89303/page/b.html'', ''B'')]"
  by code_simp

section \<open>The links returned\<close>

lemma extract_success:
  assumes "success (arun e (fetch_count tr) toc_url)" and "bundle_match toc_url = Some b"
  shows "extract_navigation_links e toc_url tr =
           (links_of_soup b (html (arun e (fetch_count tr) toc_url)), tr @ [Fetch toc_url])"
  using assms by (simp add: extract_navigation_links_def do_arun_def)

lemma keep_first_map_of_all: "map_of (keep_first {} xs) = map_of xs"
  by (rule ext) (simp add: keep_first_map_of)

text \<open>
  Claim C7, as the code has it. No two links that \<^const>\<open>extract_navigation_links\<close>
  returns have the same URL string, the absolute URL compared as it is written. When
  the page is fetched and the bundle id is \<open>b\<close>, the scanned links offer their pairs
  in document order (\<^const>\<open>candidates\<close>: a qualifying URL with a text that is not
  empty), and the links returned are, in this order, the first pair of every URL
  offered (\<^const>\<open>keep_first\<close>): every such URL once, with the text of its first
  offer, at the place of its first offer.
\<close>

theorem extracted_links_distinct_first_offer:
  assumes "extract_navigation_links e toc_url tr = (Inr links, tr')"
  shows "distinct (map fst links) \<and>
         (\<forall>b. success (arun e (fetch_count tr) toc_url) \<and> bundle_match toc_url = Some b \<longrightarrow>
            links = keep_first {}
              (candidates b (scanned_links b (html (arun e (fetch_count tr) toc_url)))) \<and>
            subseq links
              (candidates b (scanned_links b (html (arun e (fetch_count tr) toc_url)))) \<and>
            map_of links =
              map_of (candidates b (scanned_links b (html (arun e (fetch_count tr) toc_url)))))"
proof (rule conjI)
  from extract_links_of_soup [OF assms] show "distinct (map fst links)"
  proof
    assume "links = []"
    then show ?thesis by simp
  next
    assume "\<exists>b. success (arun e (fetch_count tr) toc_url) \<and> bundle_match toc_url = Some b \<and>
              links_of_soup b (html (arun e (fetch_count tr) toc_url)) = Inr links"
    then obtain b where "links_of_soup b (html (arun e (fetch_count tr) toc_url)) = Inr links"
      by (elim exE conjE)
    from links_of_soup_eq [OF this] show ?thesis
      by (simp add: keep_first_distinct)
  qed
next
  show "\<forall>b. success (arun e (fetch_count tr) toc_url) \<and> bundle_match toc_url = Some b \<longrightarrow>
            links = keep_first {}
              (candidates b (scanned_links b (html (arun e (fetch_count tr) toc_url)))) \<and>
            subseq links
              (candidates b (scanned_links b (html (arun e (fetch_count tr) toc_url)))) \<and>
            map_of links =
              map_of (candidates b (scanned_links b (html (arun e (fetch_count tr) toc_url))))"
  proof (intro allI impI)
    fix b
    assume "success (arun e (fetch_count tr) toc_url) \<and> bundle_match toc_url = Some b"
    then have "extract_navigation_links e toc_url tr =
        (links_of_soup b (html (arun e (fetch_count tr) toc_url)), tr @ [Fetch toc_url])"
      using extract_success by simp
    with assms have "links_of_soup b (html (arun e (fetch_count tr) toc_url)) = Inr links"
      by simp
    from links_of_soup_eq [OF this]
    have eq: "links = keep_first {}
        (candidates b (scanned_links b (html (arun e (fetch_count tr) toc_url))))" .
    have "subseq links
        (candidates b (scanned_links b (html (arun e (fetch_count tr) toc_url))))"
      by (subst eq) (rule keep_first_subseq)
    moreover have "map_of links =
        map_of (candidates b (scanned_links b (html (arun e (fetch_count tr) toc_url))))"
      by (subst eq) (rule keep_first_map_of_all)
    ultimately show "links = keep_first {}
              (candidates b (scanned_links b (html (arun e (fetch_count tr) toc_url)))) \<and>
            subseq links
              (candidates b (scanned_links b (html (arun e (fetch_count tr) toc_url)))) \<and>
            map_of links =
              map_of (candidates b (scanned_links b (html (arun e (fetch_count tr) toc_url))))"
      using eq by (intro conjI)
  qed
qed

text \<open>
  A run in which the section offers the first page twice, at the first and at the third
  place and under two texts: the page is returned once, first, with its first text.
\<close>

theorem extracted_links_distinct_first_offer_witness:
  "extract_navigation_links (env_always (page_ok toc_repeat)) toc_url_89303 [] =
     (Inr [(''https://docs.motorolasolutions.com/bundle/89303/page/a.html'', ''A''),
      (''https://docs.motorolasolutions.com/bundle/89303/page/b.html'', ''B'')],
      [Fetch toc_url_89303]) \<and>
   candidates ''89303'' (scanned_links ''89303''
        (html (arun (env_always (page_ok toc_repeat)) (fetch_count []) toc_url_89303))) =
     [(''https://docs.motorolasolutions.com/bundle/89303/page/a.html'', ''A''), (''https://docs.motorolasolutions.com/bundle/89303/page/b.html'', ''B''),
      (''https://docs.motorolasolutions.com/bundle/89303/page/a.html'', ''A again'')] \<and>
   distinct (map fst [(''https://docs.motorolasolutions.com/bundle/89303/page/a.html'', ''A''),
      (''https://docs.motorolasolutions.com/bundle/89303/page/b.html'', ''B'')]) \<and>
   success (arun (env_always (page_ok toc_repeat)) (fetch_count []) toc_url_89303) \<and>
   bundle_match toc_url_89303 = Some ''89303'' \<and>
   [(''https://docs.motorolasolutions.com/bundle/89303/page/a.html'', ''A''),
      (''https://docs.motorolasolutions.com/bundle/89303/page/b.html'', ''B'')] = keep_first {} (candidates ''89303'' (scanned_links ''89303''
        (html (arun (env_always (page_ok toc_repeat)) (fetch_count []) toc_url_89303)))) \<and>
   subseq [(''https://docs.motorolasolutions.com/bundle/89303/page/a.html'', ''A''),
      (''https://docs.motorolasolutions.com/bundle/89303/page/b.html'', ''B'')] (candidates ''89303'' (scanned_links ''89303''
        (html (arun (env_always (page_ok toc_repeat)) (fetch_count []) toc_url_89303)))) \<and>
   map_of [(''https://docs.motorolasolutions.com/bundle/89303/page/a.html'', ''A''),
      (''https://docs.motorolasolutions.com/bundle/89303/page/b.html'', ''B'')] = map_of (candidates ''89303'' (scanned_links ''89303''
        (html (arun (env_always (page_ok toc_repeat)) (fetch_count []) toc_url_89303))))"
proof -
  have run: "extract_navigation_links (env_always (page_ok toc_repeat)) toc_url_89303 [] =
     (Inr [(''https://docs.motorolasolutions.com/bundle/89303/page/a.html'', ''A''),
      (''https://docs.motorolasolutions.com/bundle/89303/page/b.html'', ''B'')],
      [Fetch toc_url_89303])"
    by code_simp
  have offers: "candidates ''89303'' (scanned_links ''89303''
        (html (arun (env_always (page_ok toc_repeat)) (fetch_count []) toc_url_89303))) =
     [(''https://docs.motorolasolutions.com/bundle/89303/page/a.html'', ''A''), (''https://docs.motorolasolutions.com/bundle/89303/page/b.html'', ''B''),
      (''https://docs.motorolasolutions.com/bundle/89303/page/a.html'', ''A again'')]"
    by code_simp
  have ok: "success (arun (env_always (page_ok toc_repeat)) (fetch_count []) toc_url_89303)"
    by (simp add: env_always_def page_ok_def)
  have id: "bundle_match toc_url_89303 = Some ''89303''"
    by code_simp
  note all = extracted_links_distinct_first_offer [OF run]
  have rest: "[(''https://docs.motorolasolutions.com/bundle/89303/page/a.html'', ''A''),
      (''https://docs.motorolasolutions.com/bundle/89303/page/b.html'', ''B'')] = keep_first {} (candidates ''89303'' (scanned_links ''89303''
        (html (arun (env_always (page_ok toc_repeat)) (fetch_count []) toc_url_89303)))) \<and>
   subseq [(''https://docs.motorolasolutions.com/bundle/89303/page/a.html'', ''A''),
      (''https://docs.motorolasolutions.com/bundle/89303/page/b.html'', ''B'')] (candidates ''89303'' (scanned_links ''89303''
        (html (arun (env_always (page_ok toc_repeat)) (fetch_count []) toc_url_89303)))) \<and>
   map_of [(''https://docs.motorolasolutions.com/bundle/89303/page/a.html'', ''A''),
      (''https://docs.motorolasolutions.com/bundle/89303/page/b.html'', ''B'')] = map_of (candidates ''89303'' (scanned_links ''89303''
        (html (arun (env_always (page_ok toc_repeat)) (fetch_count []) toc_url_89303))))"
    by (rule mp [OF spec [OF conjunct2 [OF all], of "''89303''"] conjI [OF ok id]])
  show ?thesis
    by (rule conjI [OF run conjI [OF offers conjI [OF conjunct1 [OF all]
          conjI [OF ok conjI [OF id rest]]]]])
qed

text \<open>
  The claim as it is written fails twice. Two links whose URLs differ in a trailing
  slash are both returned, though their keys in the sense of the spec agree. And a
  page linked first without text and then with text is returned with the later text,
  not with the text seen first.
\<close>

theorem extracted_links_counterexample:
  "fst (extract_navigation_links (env_always (page_ok toc_slash)) toc_url_89303 []) =
     Inr [(''https://docs.motorolasolutions.com/bundle/89303/page/a'', ''A''),
          (''https://docs.motorolasolutions.com/bundle/89303/page/a/'', ''A again'')] \<and>
   spec_identity_key ''https://docs.motorolasolutions.com/bundle/89303/page/a'' =
     spec_identity_key ''https://docs.motorolasolutions.com/bundle/89303/page/a/'' \<and>
   fst (extract_navigation_links (env_always (page_ok toc_image)) toc_url_89303 []) =
     Inr [(''https://docs.motorolasolutions.com/bundle/89303/page/a.html'', ''Later'')] \<and>
   map (\<lambda>link. (get_href link, get_text_strip link)) (section_links (hd toc_image) (tl toc_image)) =
     [(''/bundle/89303/page/a.html'', ''''), (''/bundle/89303/page/a.html'', ''Later'')]"
  by code_simp

section \<open>The section of an anchor\<close>








end
